theory Spec2Isabelle
  imports Main "HOL-Library.Product_Lexorder" "HOL-Library.Multiset"
begin

section \<open>JavaScript strings\<close>

text \<open>
  A JavaScript string is a sequence of UTF-16 code units. A code unit is modelled as a
  natural number (the values below 65536 are the code units); no arithmetic is done on
  code units except the case folding of ASCII letters, so nothing wraps around.
  \<open>str\<close> turns an ASCII literal of the theory into such a string.
\<close>

type_synonym cu = nat
type_synonym jsstring = "cu list"

definition str :: "string \<Rightarrow> jsstring" where
  "str s = map of_char s"

text \<open>
  \<open>!v\<close> for a value that is \<open>null\<close>/\<open>undefined\<close> (\<open>None\<close>) or a string: only the empty
  string and the missing value are falsy.
\<close>

definition truthy :: "jsstring option \<Rightarrow> bool" where
  "truthy v = (case v of None \<Rightarrow> False | Some s \<Rightarrow> s \<noteq> [])"

section \<open>The regular expressions of \<open>extractVideoId\<close>\<close>

text \<open>
  \<open>url.match(pattern)\<close> with a pattern without the \<open>g\<close> flag runs the backtracking
  matcher of ECMAScript at the start positions 0, 1, ... and returns the first match. The
  matcher below is that algorithm in continuation-passing style, as the language
  specification writes it, for the constructs the six patterns use: characters, \<open>.\<close>,
  character classes, sequence, alternation, \<open>?\<close> on a group, greedy \<open>*\<close>, \<open>+\<close> and \<open>{n}\<close> on a
  single character or class, one capturing group, \<open>^\<close> and \<open>$\<close>.
\<close>

definition isLineTerminator :: "cu \<Rightarrow> bool" where
  "isLineTerminator c = (c = 0x0A \<or> c = 0x0D \<or> c = 0x2028 \<or> c = 0x2029)"

definition isWhiteSpace :: "cu \<Rightarrow> bool" where
  "isWhiteSpace c =
     (c = 0x09 \<or> c = 0x0B \<or> c = 0x0C \<or> c = 0x20 \<or> c = 0xA0 \<or> c = 0xFEFF \<or>
      c = 0x1680 \<or> (0x2000 \<le> c \<and> c \<le> 0x200A) \<or> c = 0x202F \<or> c = 0x205F \<or> c = 0x3000)"

text \<open>The class \<open>\s\<close>: white space and line terminators.\<close>

definition isSpace :: "cu \<Rightarrow> bool" where
  "isSpace c = (isWhiteSpace c \<or> isLineTerminator c)"

text \<open>
  Case folding under the \<open>i\<close> flag (without \<open>u\<close>): a code unit is replaced by its upper
  case, except that a code unit from 128 on is never folded to an ASCII one. The function
  folds the ASCII letters and leaves every other code unit alone. The matcher only ever
  compares the folding of an input code unit with the folding of a pattern character, and
  every pattern character here is an ASCII character or a white space character: on these
  comparisons the function agrees with the full Unicode folding, since no code unit from
  128 on folds to an ASCII character or to a white space character.
\<close>

definition canonicalize :: "bool \<Rightarrow> cu \<Rightarrow> cu" where
  "canonicalize ignoreCase c =
     (if ignoreCase \<and> 0x61 \<le> c \<and> c \<le> 0x7A then c - 0x20 else c)"

datatype class_item = One cu | Range cu cu | Space

datatype atom = Ch cu | Dot | Cls "class_item list" | NCls "class_item list"

datatype regex =
    Eps
  | Atom atom
  | Seq regex regex
  | Alt regex regex
  | Opt regex
  | Star atom
  | Plus atom
  | Rep atom nat
  | Group regex
  | Bol
  | Eol

fun item_matches :: "bool \<Rightarrow> class_item \<Rightarrow> cu \<Rightarrow> bool" where
  "item_matches ic (One a) c = (canonicalize ic a = canonicalize ic c)"
| "item_matches ic (Range lo hi) c =
     list_ex (\<lambda>a. canonicalize ic a = canonicalize ic c) [lo ..< Suc hi]"
| "item_matches ic Space c = isSpace (canonicalize ic c)"

fun atom_matches :: "bool \<Rightarrow> atom \<Rightarrow> cu \<Rightarrow> bool" where
  "atom_matches ic (Ch a) c = (canonicalize ic a = canonicalize ic c)"
| "atom_matches ic Dot c = (\<not> isLineTerminator c)"
| "atom_matches ic (Cls items) c = list_ex (\<lambda>it. item_matches ic it c) items"
| "atom_matches ic (NCls items) c = (\<not> list_ex (\<lambda>it. item_matches ic it c) items)"

text \<open>
  Greedy \<open>*\<close> on one atom: take the code unit if it matches and go on; when the rest of
  the pattern then fails, give the code unit back and try the rest of the pattern here.
\<close>

fun star :: "(cu \<Rightarrow> bool) \<Rightarrow> jsstring \<Rightarrow> (jsstring \<Rightarrow> 'r option) \<Rightarrow> 'r option" where
  "star p [] k = k []"
| "star p (c # cs) k =
     (if p c then (case star p cs k of Some r \<Rightarrow> Some r | None \<Rightarrow> k (c # cs))
      else k (c # cs))"

text \<open>\<open>{n}\<close> on one atom: exactly \<open>n\<close> matching code units, nothing to give back.\<close>

fun rep :: "(cu \<Rightarrow> bool) \<Rightarrow> nat \<Rightarrow> jsstring \<Rightarrow> (jsstring \<Rightarrow> 'r option) \<Rightarrow> 'r option" where
  "rep p 0 cs k = k cs"
| "rep p (Suc n) [] k = None"
| "rep p (Suc n) (c # cs) k = (if p c then rep p n cs k else None)"

text \<open>
  The state of a match is the input that is left and the value of capture group 1
  (\<open>None\<close> while it is undefined). \<open>s\<close> is the whole input, for \<open>^\<close>.
\<close>

type_synonym mstate = "jsstring \<times> jsstring option"

fun matcher :: "bool \<Rightarrow> jsstring \<Rightarrow> regex \<Rightarrow> mstate \<Rightarrow> (mstate \<Rightarrow> 'r option) \<Rightarrow> 'r option" where
  "matcher ic s Eps x k = k x"
| "matcher ic s (Atom a) (rest, cap) k =
     (case rest of [] \<Rightarrow> None
      | c # cs \<Rightarrow> if atom_matches ic a c then k (cs, cap) else None)"
| "matcher ic s (Seq r1 r2) x k = matcher ic s r1 x (\<lambda>y. matcher ic s r2 y k)"
| "matcher ic s (Alt r1 r2) x k =
     (case matcher ic s r1 x k of Some r \<Rightarrow> Some r | None \<Rightarrow> matcher ic s r2 x k)"
| "matcher ic s (Opt r) x k =
     (case matcher ic s r x (\<lambda>y. if length (fst y) = length (fst x) then None else k y) of
        Some r \<Rightarrow> Some r
      | None \<Rightarrow> k x)"
| "matcher ic s (Star a) (rest, cap) k = star (atom_matches ic a) rest (\<lambda>r. k (r, cap))"
| "matcher ic s (Plus a) (rest, cap) k =
     (case rest of [] \<Rightarrow> None
      | c # cs \<Rightarrow> if atom_matches ic a c
                  then star (atom_matches ic a) cs (\<lambda>r. k (r, cap)) else None)"
| "matcher ic s (Rep a n) (rest, cap) k = rep (atom_matches ic a) n rest (\<lambda>r. k (r, cap))"
| "matcher ic s (Group r) (rest, cap) k =
     matcher ic s r (rest, cap)
       (\<lambda>y. k (fst y, Some (take (length rest - length (fst y)) rest)))"
| "matcher ic s Bol (rest, cap) k = (if length rest = length s then k (rest, cap) else None)"
| "matcher ic s Eol (rest, cap) k = (if rest = [] then k (rest, cap) else None)"

text \<open>
  \<open>exec_from\<close> tries the start positions from left to right (the input left is \<open>rest\<close>),
  the last one being the end of the input. The result of a match is capture group 1.
\<close>

fun exec_from :: "bool \<Rightarrow> regex \<Rightarrow> jsstring \<Rightarrow> jsstring \<Rightarrow> jsstring option option" where
  "exec_from ic r s [] =
     (case matcher ic s r ([], None) Some of Some y \<Rightarrow> Some (snd y) | None \<Rightarrow> None)"
| "exec_from ic r s (c # cs) =
     (case matcher ic s r (c # cs, None) Some of
        Some y \<Rightarrow> Some (snd y)
      | None \<Rightarrow> exec_from ic r s cs)"

text \<open>A pattern is a regular expression with its \<open>i\<close> flag.\<close>

type_synonym pattern = "bool \<times> regex"

definition js_match :: "jsstring \<Rightarrow> pattern \<Rightarrow> jsstring option option" where
  "js_match url p = exec_from (fst p) (snd p) url url"

text \<open>A literal piece of a pattern: its characters in sequence.\<close>

fun lit :: "string \<Rightarrow> regex" where
  "lit [] = Eps"
| "lit (c # cs) = Seq (Atom (Ch (of_char c))) (lit cs)"

text \<open>The class \<open>[^"&?\/\s]\<close> and the group \<open>([^"&?\/\s]{11})\<close> of the first five patterns.\<close>

definition id_atom :: atom where
  "id_atom = NCls [One 0x22, One 0x26, One 0x3F, One 0x2F, Space]"

definition id_group :: regex where
  "id_group = Group (Rep id_atom 11)"

text \<open>The class \<open>[a-zA-Z0-9_-]\<close> of the last pattern.\<close>

definition bare_atom :: atom where
  "bare_atom = Cls [Range 0x61 0x7A, Range 0x41 0x5A, Range 0x30 0x39, One 0x5F, One 0x2D]"

text \<open>
  The six patterns of the \<open>/info\<close> route, in the order of the source:
  \<^verbatim>\<open>/(?:youtube\.com\/(?:[^\/]+\/.+\/|(?:v|e(?:mbed)?)\/|.*[?&]v=)|youtu\.be\/)([^"&?\/\s]{11})/i\<close>,
  \<^verbatim>\<open>/youtu\.be\/([^"&?\/\s]{11})/i\<close>,
  \<^verbatim>\<open>/youtube\.com\/embed\/([^"&?\/\s]{11})/i\<close>,
  \<^verbatim>\<open>/youtube\.com\/shorts\/([^"&?\/\s]{11})/i\<close>,
  \<^verbatim>\<open>/youtube\.com\/v\/([^"&?\/\s]{11})/i\<close>,
  \<^verbatim>\<open>/^([a-zA-Z0-9_-]{11})$/\<close>.
\<close>

definition pattern1 :: pattern where
  "pattern1 =
     (True,
      Seq (Alt (Seq (lit ''youtube.com/'')
                 (Alt (Seq (Plus (NCls [One 0x2F])) (Seq (lit ''/'') (Seq (Plus Dot) (lit ''/''))))
                 (Alt (Seq (Alt (lit ''v'') (Seq (lit ''e'') (Opt (lit ''mbed'')))) (lit ''/''))
                      (Seq (Star Dot) (Seq (Atom (Cls [One 0x3F, One 0x26])) (lit ''v=''))))))
               (lit ''youtu.be/''))
          id_group)"

definition pattern2 :: pattern where
  "pattern2 = (True, Seq (lit ''youtu.be/'') id_group)"

definition pattern3 :: pattern where
  "pattern3 = (True, Seq (lit ''youtube.com/embed/'') id_group)"

definition pattern4 :: pattern where
  "pattern4 = (True, Seq (lit ''youtube.com/shorts/'') id_group)"

definition pattern5 :: pattern where
  "pattern5 = (True, Seq (lit ''youtube.com/v/'') id_group)"

definition pattern6 :: pattern where
  "pattern6 = (False, Seq Bol (Seq (Group (Rep bare_atom 11)) Eol))"

definition patterns :: "pattern list" where
  "patterns = [pattern1, pattern2, pattern3, pattern4, pattern5, pattern6]"

text \<open>
  The loop over the patterns: the first pattern that matches with a truthy group 1
  (a non-empty string) gives the result; \<open>None\<close> is \<open>null\<close>.
\<close>

fun try_patterns :: "pattern list \<Rightarrow> jsstring \<Rightarrow> jsstring option" where
  "try_patterns [] url = None"
| "try_patterns (p # ps) url =
     (case js_match url p of
        Some (Some g) \<Rightarrow> if g \<noteq> [] then Some g else try_patterns ps url
      | _ \<Rightarrow> try_patterns ps url)"

definition extractVideoId :: "jsstring \<Rightarrow> jsstring option" where
  "extractVideoId url = try_patterns patterns url"

text \<open>
  The \<open>/download\<close> route has its own copy of the function, with its own list of patterns:
  \<^verbatim>\<open>/(?:youtube\.com\/(?:[^\/]+\/.+\/|(?:v|e(?:mbed)?)\/|.*[?&]v=)|youtu\.be\/)([^"&?\/\s]{11})/i\<close>,
  \<^verbatim>\<open>/youtu\.be\/([^"&?\/\s]{11})/i\<close>,
  \<^verbatim>\<open>/youtube\.com\/embed\/([^"&?\/\s]{11})/i\<close>,
  \<^verbatim>\<open>/youtube\.com\/shorts\/([^"&?\/\s]{11})/i\<close>,
  \<^verbatim>\<open>/youtube\.com\/v\/([^"&?\/\s]{11})/i\<close>,
  \<^verbatim>\<open>/^([a-zA-Z0-9_-]{11})$/\<close>.
\<close>

definition download_patterns :: "pattern list" where
  "download_patterns =
     [(True,
       Seq (Alt (Seq (lit ''youtube.com/'')
                  (Alt (Seq (Plus (NCls [One 0x2F])) (Seq (lit ''/'') (Seq (Plus Dot) (lit ''/''))))
                  (Alt (Seq (Alt (lit ''v'') (Seq (lit ''e'') (Opt (lit ''mbed'')))) (lit ''/''))
                       (Seq (Star Dot) (Seq (Atom (Cls [One 0x3F, One 0x26])) (lit ''v=''))))))
                (lit ''youtu.be/''))
           (Group (Rep (NCls [One 0x22, One 0x26, One 0x3F, One 0x2F, Space]) 11))),
      (True, Seq (lit ''youtu.be/'')
               (Group (Rep (NCls [One 0x22, One 0x26, One 0x3F, One 0x2F, Space]) 11))),
      (True, Seq (lit ''youtube.com/embed/'')
               (Group (Rep (NCls [One 0x22, One 0x26, One 0x3F, One 0x2F, Space]) 11))),
      (True, Seq (lit ''youtube.com/shorts/'')
               (Group (Rep (NCls [One 0x22, One 0x26, One 0x3F, One 0x2F, Space]) 11))),
      (True, Seq (lit ''youtube.com/v/'')
               (Group (Rep (NCls [One 0x22, One 0x26, One 0x3F, One 0x2F, Space]) 11))),
      (False,
       Seq Bol
         (Seq (Group (Rep (Cls [Range 0x61 0x7A, Range 0x41 0x5A, Range 0x30 0x39,
                                One 0x5F, One 0x2D]) 11))
              Eol))]"

definition extractVideoId_download :: "jsstring \<Rightarrow> jsstring option" where
  "extractVideoId_download url = try_patterns download_patterns url"

section \<open>Provider payloads and formats\<close>

text \<open>
  The payloads come from \<open>response.json()\<close> and are untyped in the source. They are
  modelled with the shape the handler reads: a field that the handler guards against
  (\<open>?.\<close>, \<open>||\<close>, \<open>!== undefined\<close>) or only copies may be missing (\<open>None\<close>); \<open>id\<close> is
  a number or a string, as \<open>item.id.toString()\<close> needs it; \<open>bitrate\<close> is a number, as the
  interface \<open>VideoFormat\<close> declares it. Numbers are integers: the doubles of the source
  agree with them up to \<open>2^53\<close>, and \<open>toString\<close> prints them in decimal up to \<open>10^21\<close>
  (from there on the source prints an exponent; numbers with a fraction have no value here).
  A body of another shape (an item without \<open>id\<close>, a label that is not a string) makes
  the handler throw inside the inner \<open>try\<close>, which it treats like a failed call to the
  primary provider; such bodies are outside the model.
\<close>

datatype jsval = JNum int | JStr jsstring

function digit_str :: "nat \<Rightarrow> jsstring" where
  "digit_str n = (if n < 10 then [0x30 + n] else digit_str (n div 10) @ [0x30 + n mod 10])"
  by pat_completeness auto
termination
  by (relation "measure id") auto

fun toString :: "jsval \<Rightarrow> jsstring" where
  "toString (JNum i) = (if i < 0 then 0x2D # digit_str (nat (- i)) else digit_str (nat i))"
| "toString (JStr s) = s"

record raw_item =
  item_id :: jsval
  item_mimeType :: "jsstring option"
  item_qualityLabel :: "jsstring option"
  item_bitrate :: int
  item_audioQuality :: "jsstring option"
  item_container :: "jsstring option"
  item_codecs :: "jsstring option"
  item_contentLength :: "jsstring option"

record VideoFormat =
  itag :: jsstring
  mimeType :: "jsstring option"
  qualityLabel :: "jsstring option"
  bitrate :: int
  hasVideo :: bool
  hasAudio :: bool
  container :: "jsstring option"
  codecs :: "jsstring option"
  contentLength :: "jsstring option"

text \<open>\<open>v || d\<close> for a string or missing value \<open>v\<close> and a string \<open>d\<close>.\<close>

definition or_default :: "jsstring option \<Rightarrow> jsstring \<Rightarrow> jsstring" where
  "or_default v d = (case v of None \<Rightarrow> d | Some s \<Rightarrow> if s = [] then d else s)"

text \<open>The object pushed for an item of \<open>rapidApiData.videos.items\<close>.\<close>

definition video_format :: "raw_item \<Rightarrow> VideoFormat" where
  "video_format item =
     \<lparr> itag = toString (item_id item),
       mimeType = item_mimeType item,
       qualityLabel = item_qualityLabel item,
       bitrate = item_bitrate item,
       hasVideo = True,
       hasAudio = (item_audioQuality item \<noteq> None),
       container = item_container item,
       codecs = item_codecs item,
       contentLength = item_contentLength item \<rparr>"

text \<open>The object pushed for an item of \<open>rapidApiData.audios.items\<close>.\<close>

definition audio_format :: "raw_item \<Rightarrow> VideoFormat" where
  "audio_format item =
     \<lparr> itag = toString (item_id item),
       mimeType = Some (str ''audio/'' @ or_default (item_container item) (str ''mp3'')),
       qualityLabel = Some (str ''Audio Only''),
       bitrate = item_bitrate item,
       hasVideo = False,
       hasAudio = True,
       container = item_container item,
       codecs = item_codecs item,
       contentLength = item_contentLength item \<rparr>"

subsection \<open>\<open>parseInt\<close> and the comparator\<close>

text \<open>
  \<open>parseInt(string)\<close> without a radix: leading white space is dropped, then an optional
  sign, then \<open>0x\<close> or \<open>0X\<close> selects radix 16, then the longest run of digits of the radix
  is read; without a digit the result is \<open>NaN\<close>, which is \<open>None\<close> here. Negative zero is
  identified with zero: the comparator only subtracts and the sort only looks at the sign.
  The result is the exact integer; the double of the source rounds it above \<open>2^53\<close>.
\<close>

definition digit_value :: "cu \<Rightarrow> nat option" where
  "digit_value c =
     (if 0x30 \<le> c \<and> c \<le> 0x39 then Some (c - 0x30)
      else if 0x61 \<le> c \<and> c \<le> 0x7A then Some (c - 0x61 + 10)
      else if 0x41 \<le> c \<and> c \<le> 0x5A then Some (c - 0x41 + 10)
      else None)"

definition is_digit :: "nat \<Rightarrow> cu \<Rightarrow> bool" where
  "is_digit radix c = (case digit_value c of None \<Rightarrow> False | Some d \<Rightarrow> d < radix)"

definition digits_value :: "nat \<Rightarrow> jsstring \<Rightarrow> nat" where
  "digits_value radix z =
     foldl (\<lambda>acc c. acc * radix + (case digit_value c of None \<Rightarrow> 0 | Some d \<Rightarrow> d)) 0 z"

definition strip_sign :: "jsstring \<Rightarrow> int \<times> jsstring" where
  "strip_sign t =
     (case t of
        [] \<Rightarrow> (1, [])
      | c # cs \<Rightarrow> if c = 0x2D then (- 1, cs) else if c = 0x2B then (1, cs) else (1, c # cs))"

definition strip_prefix :: "jsstring \<Rightarrow> nat \<times> jsstring" where
  "strip_prefix t =
     (case t of
        c # x # cs \<Rightarrow> if c = 0x30 \<and> (x = 0x78 \<or> x = 0x58) then (16, cs) else (10, t)
      | _ \<Rightarrow> (10, t))"

definition parseInt :: "jsstring \<Rightarrow> int option" where
  "parseInt inputString =
     (let (sign, t) = strip_sign (dropWhile isSpace inputString);
          (radix, u) = strip_prefix t;
          z = takeWhile (is_digit radix) u
      in if z = [] then None else Some (sign * int (digits_value radix z)))"

text \<open>
  \<open>parseInt(a.qualityLabel?.split('p')[0] || '0')\<close>: the text before the first \<open>p\<close>, and
  \<open>'0'\<close> when the label is missing or that text is empty.
\<close>

definition resolution :: "VideoFormat \<Rightarrow> int option" where
  "resolution a =
     parseInt (or_default (map_option (takeWhile (\<lambda>c. c \<noteq> 0x70)) (qualityLabel a)) (str ''0''))"

text \<open>The function given to \<open>formats.sort\<close>; \<open>None\<close> is \<open>NaN\<close>.\<close>

definition compareFormats :: "VideoFormat \<Rightarrow> VideoFormat \<Rightarrow> int option" where
  "compareFormats a b =
     (if hasVideo a \<and> \<not> hasVideo b then Some (- 1)
      else if \<not> hasVideo a \<and> hasVideo b then Some 1
      else if hasVideo a \<and> hasVideo b then
        (case (resolution a, resolution b) of
           (Some aRes, Some bRes) \<Rightarrow> Some (bRes - aRes)
         | _ \<Rightarrow> None)
      else Some (bitrate b - bitrate a))"

text \<open>
  \<open>Array.prototype.sort\<close> calls the comparator through \<open>SortCompare\<close>, which reads \<open>NaN\<close> as
  \<open>+0\<close>. The language leaves the sorting algorithm to the implementation and requires a
  stable sort: when the comparator is consistent, the result is the one stable
  arrangement, whatever the algorithm. The model is the stable insertion sort. When the
  comparator is not consistent (a label that does not parse among three or more video
  items), the order is the choice of the engine and may differ from the one of the model.
\<close>

definition sortCompare :: "('a \<Rightarrow> 'a \<Rightarrow> int option) \<Rightarrow> 'a \<Rightarrow> 'a \<Rightarrow> int" where
  "sortCompare comparefn x y = (case comparefn x y of None \<Rightarrow> 0 | Some v \<Rightarrow> v)"

fun insert_sorted :: "('a \<Rightarrow> 'a \<Rightarrow> int option) \<Rightarrow> 'a \<Rightarrow> 'a list \<Rightarrow> 'a list" where
  "insert_sorted comparefn x [] = [x]"
| "insert_sorted comparefn x (y # ys) =
     (if sortCompare comparefn x y > 0 then y # insert_sorted comparefn x ys else x # y # ys)"

definition array_sort :: "('a \<Rightarrow> 'a \<Rightarrow> int option) \<Rightarrow> 'a list \<Rightarrow> 'a list" where
  "array_sort comparefn xs = foldr (insert_sorted comparefn) xs []"

text \<open>
  The format list of the primary path: the video items, then the audio items, then the
  sort. A missing \<open>videos\<close>, \<open>audios\<close> or \<open>items\<close> (\<open>None\<close>) adds nothing.
\<close>

definition items_of :: "raw_item list option \<Rightarrow> raw_item list" where
  "items_of v = (case v of None \<Rightarrow> [] | Some items \<Rightarrow> items)"

definition normalize_formats :: "raw_item list option \<Rightarrow> raw_item list option \<Rightarrow> VideoFormat list" where
  "normalize_formats videos audios =
     array_sort compareFormats
       (map video_format (items_of videos) @ map audio_format (items_of audios))"

section \<open>The \<open>/info\<close> handler\<close>

record rapidApiData =
  rapid_videos_items :: "raw_item list option"
  rapid_audios_items :: "raw_item list option"
  rapid_title :: "jsstring option"
  rapid_channel_name :: "jsstring option"
  rapid_lengthSeconds :: "jsval option"
  rapid_viewCount :: "jsval option"
  rapid_thumbnail0_url :: "jsstring option"

record oembedData =
  oembed_title :: "jsstring option"
  oembed_author_name :: "jsstring option"
  oembed_thumbnail_url :: "jsstring option"

record info_response =
  videoId :: jsstring
  title :: "jsstring option"
  author :: "jsstring option"
  lengthSeconds :: jsstring
  viewCount :: jsstring
  thumbnailUrl :: "jsstring option"
  formats :: "VideoFormat list"

datatype body = ErrorBody jsstring | InfoBody info_response

datatype response = Json nat body | Redirect jsstring

text \<open>The outbound calls of a request, in the order they are made.\<close>

datatype call = RapidApi jsstring | OEmbed jsstring

definition primary_response :: "jsstring \<Rightarrow> rapidApiData \<Rightarrow> info_response" where
  "primary_response vid rapidApiData =
     \<lparr> videoId = vid,
       title = rapid_title rapidApiData,
       author = Some (or_default (rapid_channel_name rapidApiData) (str ''Unknown'')),
       lengthSeconds =
         or_default (map_option toString (rapid_lengthSeconds rapidApiData)) (str ''0''),
       viewCount = or_default (map_option toString (rapid_viewCount rapidApiData)) (str ''0''),
       thumbnailUrl = Some (or_default (rapid_thumbnail0_url rapidApiData) []),
       formats =
         normalize_formats (rapid_videos_items rapidApiData) (rapid_audios_items rapidApiData) \<rparr>"

definition fallback_formats :: "VideoFormat list" where
  "fallback_formats =
     [\<lparr> itag = str ''18'',
        mimeType = Some (str ''video/mp4''),
        qualityLabel = Some (str ''360p''),
        bitrate = 0,
        hasVideo = True,
        hasAudio = True,
        container = Some (str ''mp4''),
        codecs = Some (str ''avc1.42001E, mp4a.40.2''),
        contentLength = Some (str ''0'') \<rparr>,
      \<lparr> itag = str ''140'',
        mimeType = Some (str ''audio/mp4''),
        qualityLabel = Some (str ''Audio Only''),
        bitrate = 128000,
        hasVideo = False,
        hasAudio = True,
        container = Some (str ''mp4''),
        codecs = Some (str ''mp4a.40.2''),
        contentLength = Some (str ''0'') \<rparr>]"

definition fallback_response :: "jsstring \<Rightarrow> oembedData \<Rightarrow> info_response" where
  "fallback_response vid oembedData =
     \<lparr> videoId = vid,
       title = oembed_title oembedData,
       author = oembed_author_name oembedData,
       lengthSeconds = str ''0'',
       viewCount = str ''0'',
       thumbnailUrl = oembed_thumbnail_url oembedData,
       formats = fallback_formats \<rparr>"

text \<open>
  The two provider functions are parameters: \<open>fetchRapidApiInfo videoId\<close> and
  \<open>fetchOEmbedInfo videoId\<close> give the parsed body, or \<open>None\<close> when the function throws (a
  status that is not ok, a network error, a body that does not parse).

  \<open>info_try\<close> is the body of the outer \<open>try\<close>: \<open>Inl message\<close> is the \<open>Error\<close> thrown to the
  outer \<open>catch\<close>, \<open>Inr\<close> a response returned. The second component is the list of outbound
  calls made.
\<close>

definition info_try ::
  "(jsstring \<Rightarrow> rapidApiData option) \<Rightarrow> (jsstring \<Rightarrow> oembedData option) \<Rightarrow> jsstring
     \<Rightarrow> (jsstring + response) \<times> call list" where
  "info_try fetchRapidApiInfo fetchOEmbedInfo url =
     (case extractVideoId url of
        None \<Rightarrow> (Inr (Json 400 (ErrorBody (str ''Could not extract video ID from URL''))), [])
      | Some vid \<Rightarrow>
          if vid = [] then
            (Inr (Json 400 (ErrorBody (str ''Could not extract video ID from URL''))), [])
          else
            (case fetchRapidApiInfo vid of
               Some rapidApiData \<Rightarrow>
                 (Inr (Json 200 (InfoBody (primary_response vid rapidApiData))), [RapidApi vid])
             | None \<Rightarrow>
                 (case fetchOEmbedInfo vid of
                    Some oembedData \<Rightarrow>
                      (Inr (Json 200 (InfoBody (fallback_response vid oembedData))),
                       [RapidApi vid, OEmbed vid])
                  | None \<Rightarrow>
                      (Inl (str ''All methods failed to fetch video information''),
                       [RapidApi vid, OEmbed vid]))))"

definition info_GET ::
  "(jsstring \<Rightarrow> rapidApiData option) \<Rightarrow> (jsstring \<Rightarrow> oembedData option) \<Rightarrow> jsstring option
     \<Rightarrow> response \<times> call list" where
  "info_GET fetchRapidApiInfo fetchOEmbedInfo url =
     (case url of
        None \<Rightarrow> (Json 400 (ErrorBody (str ''URL parameter is required'')), [])
      | Some u \<Rightarrow>
          if u = [] then (Json 400 (ErrorBody (str ''URL parameter is required'')), [])
          else
            (case info_try fetchRapidApiInfo fetchOEmbedInfo u of
               (Inr r, calls) \<Rightarrow> (r, calls)
             | (Inl errorMessage, calls) \<Rightarrow> (Json 500 (ErrorBody errorMessage), calls)))"

text \<open>The status of a response; \<open>NextResponse.redirect\<close> answers 307.\<close>

fun status :: "response \<Rightarrow> nat" where
  "status (Json n b) = n"
| "status (Redirect target) = 307"

section \<open>The \<open>/download\<close> handler\<close>

text \<open>
  The handler reads the query parameters \<open>url\<close>, \<open>itag\<close>, \<open>format\<close> and \<open>videoId\<close> (\<open>None\<close>
  when the parameter is not in the query). \<open>Redirect target\<close> is
  \<open>NextResponse.redirect(target)\<close>, with the string that the handler builds; what the
  framework makes of the string is not part of the handler. Nothing in the \<open>try\<close> block
  throws on these inputs, so the \<open>catch\<close> with its answer 500 is never entered.
\<close>

definition final_video_id :: "jsstring option \<Rightarrow> jsstring option \<Rightarrow> response + jsstring" where
  "final_video_id url vId =
     (if truthy vId then Inr (or_default vId [])
      else if truthy url then
        (case extractVideoId_download (or_default url []) of
           None \<Rightarrow>
             Inl (Json 400 (ErrorBody (str ''Invalid YouTube URL. Could not extract video ID.'')))
         | Some extractedId \<Rightarrow>
             if extractedId = [] then
               Inl (Json 400 (ErrorBody (str ''Invalid YouTube URL. Could not extract video ID.'')))
             else Inr extractedId)
      else Inr [])"

definition download_url :: "jsstring \<Rightarrow> jsstring option \<Rightarrow> jsstring option \<Rightarrow> jsstring" where
  "download_url finalVideoId itg fmt =
     (if fmt = Some (str ''mp3'') then str ''https://www.y2mate.com/youtube-mp3/'' @ finalVideoId
      else if truthy itg then
        str ''https://www.y2mate.com/youtube/'' @ finalVideoId @ str ''/mp4/'' @ or_default itg []
      else str ''https://www.y2mate.com/youtube/'' @ finalVideoId)"

definition download_GET ::
  "jsstring option \<Rightarrow> jsstring option \<Rightarrow> jsstring option \<Rightarrow> jsstring option \<Rightarrow> response" where
  "download_GET url itg fmt vId =
     (if \<not> truthy url \<and> \<not> truthy vId then
        Json 400 (ErrorBody (str ''URL or videoId parameter is required''))
      else
        (case final_video_id url vId of
           Inl r \<Rightarrow> r
         | Inr finalVideoId \<Rightarrow> Redirect (download_url finalVideoId itg fmt)))"

section \<open>Notions of the specification\<close>

text \<open>The identifier class \<open>[A-Za-z0-9_-]\<close> and a well-formed identifier: 11 of its characters.\<close>

definition idchar :: "cu \<Rightarrow> bool" where
  "idchar c =
     ((0x41 \<le> c \<and> c \<le> 0x5A) \<or> (0x61 \<le> c \<and> c \<le> 0x7A) \<or> (0x30 \<le> c \<and> c \<le> 0x39) \<or>
      c = 0x5F \<or> c = 0x2D)"

definition is_video_identifier :: "jsstring \<Rightarrow> bool" where
  "is_video_identifier v = (length v = 11 \<and> list_all idchar v)"

text \<open>
  The code units that the capture group of the URL patterns refuses: \<open>"\<close>, \<open>&\<close>, \<open>?\<close>, \<open>/\<close> and
  white space.
\<close>

definition url_delimiter :: "cu \<Rightarrow> bool" where
  "url_delimiter c = (c = 0x22 \<or> c = 0x26 \<or> c = 0x3F \<or> c = 0x2F \<or> isSpace c)"



text \<open>\<open>contains needle hay\<close>: \<open>hay.includes(needle)\<close>.\<close>

fun contains :: "jsstring \<Rightarrow> jsstring \<Rightarrow> bool" where
  "contains needle [] = (needle = [])"
| "contains needle (c # cs) = (take (length needle) (c # cs) = needle \<or> contains needle cs)"

text \<open>The error message of an error response, and the payload of an information response.\<close>

fun error_message :: "response \<Rightarrow> jsstring option" where
  "error_message (Json n (ErrorBody m)) = Some m"
| "error_message (Json n (InfoBody b)) = None"
| "error_message (Redirect target) = None"

fun info_of :: "response \<Rightarrow> info_response option" where
  "info_of (Json n (InfoBody b)) = Some b"
| "info_of (Json n (ErrorBody m)) = None"
| "info_of (Redirect target) = None"

text \<open>
  The identifier that a \<open>/download\<close> request asks for, in the words of the specification:
  a supplied \<open>videoId\<close> takes precedence, otherwise it is the identifier parsed from a
  supplied \<open>url\<close>; \<open>None\<close> when neither is supplied or the \<open>url\<close> does not parse. A parameter
  is supplied when it is in the query and not empty.
\<close>

definition requested_id :: "jsstring option \<Rightarrow> jsstring option \<Rightarrow> jsstring option" where
  "requested_id url vId =
     (if truthy vId then vId
      else case url of None \<Rightarrow> None | Some u \<Rightarrow> if u = [] then None else extractVideoId_download u)"

text \<open>
  An item of a provider payload for the examples: its \<open>id\<close>, MIME type, quality label,
  bitrate, audio quality and container; no codecs and no content length.
\<close>

definition example_item ::
  "int \<Rightarrow> jsstring option \<Rightarrow> jsstring option \<Rightarrow> int \<Rightarrow> jsstring option \<Rightarrow> jsstring option
     \<Rightarrow> raw_item" where
  "example_item i mime label rate quality cont =
     \<lparr> item_id = JNum i, item_mimeType = mime, item_qualityLabel = label, item_bitrate = rate,
       item_audioQuality = quality, item_container = cont, item_codecs = None,
       item_contentLength = None \<rparr>"

definition example_payload :: rapidApiData where
  "example_payload =
     \<lparr> rapid_videos_items =
         Some [example_item 18 (Some (str ''video/mp4'')) (Some (str ''360p'')) 500000
                 (Some (str ''AUDIO_QUALITY_LOW'')) (Some (str ''mp4'')),
               example_item 137 (Some (str ''video/mp4'')) (Some (str ''1080p'')) 4000000
                 None (Some (str ''mp4''))],
       rapid_audios_items =
         Some [example_item 140 (Some (str ''audio/mp4'')) None 128000
                 (Some (str ''AUDIO_QUALITY_MEDIUM'')) (Some (str ''m4a''))],
       rapid_title = Some (str ''Title''),
       rapid_channel_name = None,
       rapid_lengthSeconds = Some (JNum 212),
       rapid_viewCount = None,
       rapid_thumbnail0_url = None \<rparr>"

text \<open>
  The order of the specification on formats, as a rank that sorts ascending: video formats
  before audio formats; among video formats the higher resolution first, a label that does
  not parse counting as 0; among audio formats the higher bitrate first.
\<close>

definition format_rank :: "VideoFormat \<Rightarrow> nat \<times> int" where
  "format_rank f =
     (if hasVideo f then (0, - (case resolution f of None \<Rightarrow> 0 | Some r \<Rightarrow> r))
      else (1, - bitrate f))"

section \<open>Lemmas about the matcher\<close>

subsection \<open>Evaluation rules\<close>

lemma rep_numeral:
  "rep p (numeral v) [] k = None"
  "rep p (numeral v) (c # cs) k = (if p c then rep p (pred_numeral v) cs k else None)"
  by (simp_all add: numeral_eq_Suc)

lemma atom_matches_numeral:
  "atom_matches ic (Ch a) (numeral n) = (canonicalize ic a = canonicalize ic (numeral n))"
  "atom_matches ic Dot (numeral n) = (\<not> isLineTerminator (numeral n))"
  "atom_matches ic (Cls items) (numeral n) = list_ex (\<lambda>it. item_matches ic it (numeral n)) items"
  "atom_matches ic (NCls items) (numeral n) =
     (\<not> list_ex (\<lambda>it. item_matches ic it (numeral n)) items)"
  by simp_all

lemmas eval_defs = str_def id_group_def canonicalize_def isSpace_def isWhiteSpace_def
  isLineTerminator_def rep_numeral atom_matches_numeral


subsection \<open>Identifier characters against the atoms of the patterns\<close>







lemma range_matches: "item_matches False (Range lo hi) c = (lo \<le> c \<and> c \<le> hi)"
  by (auto simp: canonicalize_def list_ex_iff)

lemma bare_atom_iff: "atom_matches False bare_atom c = idchar c"
  by (auto simp add: bare_atom_def range_matches idchar_def canonicalize_def
      simp del: item_matches.simps(2))



subsection \<open>Start positions\<close>



lemma exec_from_fail:
  assumes "\<And>rest. list_all P rest \<Longrightarrow> matcher ic s r (rest, None) Some = None"
    and "list_all P v"
  shows "exec_from ic r s v = None"
  using assms(2)
proof (induction v)
  case Nil
  then show ?case using assms(1) [of "[]"] by simp
next
  case (Cons a v)
  then show ?case using assms(1) [of "a # v"] by simp
qed





subsection \<open>The patterns at the host name of each shape\<close>

















section \<open>Claims about \<open>extractVideoId\<close>\<close>




subsection \<open>Where a successful match comes from\<close>

lemma rep_Some:
  "rep p n rest k = Some res \<Longrightarrow>
     \<exists>xs ys. rest = xs @ ys \<and> length xs = n \<and> list_all p xs \<and> k ys = Some res"
proof (induction n arbitrary: rest)
  case 0
  then show ?case by simp
next
  case (Suc n)
  show ?case
  proof (cases rest)
    case Nil
    with Suc.prems show ?thesis by simp
  next
    case (Cons c cs)
    with Suc.prems have pc: "p c" and "rep p n cs k = Some res"
      by (simp_all split: if_splits)
    from Suc.IH [OF this(2)] obtain xs ys
      where "cs = xs @ ys" "length xs = n" "list_all p xs" "k ys = Some res" by blast
    with pc Cons have "rest = (c # xs) @ ys \<and> length (c # xs) = Suc n \<and> list_all p (c # xs)
        \<and> k ys = Some res" by simp
    then show ?thesis by blast
  qed
qed

lemma star_Some: "star p rest k = Some res \<Longrightarrow> \<exists>r. k r = Some res"
  by (induction rest) (auto split: if_splits option.splits)

lemma matcher_Some: "matcher ic s r x k = Some res \<Longrightarrow> \<exists>y. k y = Some res"
proof (induction r arbitrary: x k)
  case Eps
  then have "k x = Some res" by simp
  then show ?case by (rule exI)
next
  case (Atom a)
  obtain rest cap where x: "x = (rest, cap)" by (cases x)
  from Atom.prems obtain cs where "k (cs, cap) = Some res"
    by (auto simp: x split: list.splits if_splits)
  then show ?case by (rule exI)
next
  case (Seq r1 r2)
  from Seq.prems have "matcher ic s r1 x (\<lambda>y. matcher ic s r2 y k) = Some res" by simp
  from Seq.IH(1) [OF this] obtain y where "matcher ic s r2 y k = Some res" by blast
  from Seq.IH(2) [OF this] show ?case .
next
  case (Alt r1 r2)
  show ?case
  proof (cases "matcher ic s r1 x k")
    case None
    with Alt.prems have "matcher ic s r2 x k = Some res" by simp
    from Alt.IH(2) [OF this] show ?thesis .
  next
    case (Some a)
    with Alt.prems have "matcher ic s r1 x k = Some res" by simp
    from Alt.IH(1) [OF this] show ?thesis .
  qed
next
  case (Opt r)
  show ?case
  proof (cases "matcher ic s r x (\<lambda>y. if length (fst y) = length (fst x) then None else k y)")
    case None
    with Opt.prems have "k x = Some res" by simp
    then show ?thesis by (rule exI)
  next
    case (Some a)
    with Opt.prems have "matcher ic s r x
        (\<lambda>y. if length (fst y) = length (fst x) then None else k y) = Some res" by simp
    from Opt.IH [OF this] obtain y
      where "(if length (fst y) = length (fst x) then None else k y) = Some res" by blast
    then have "k y = Some res" by (simp split: if_splits)
    then show ?thesis by (rule exI)
  qed
next
  case (Star a)
  obtain rest cap where x: "x = (rest, cap)" by (cases x)
  from Star.prems have "star (atom_matches ic a) rest (\<lambda>r. k (r, cap)) = Some res"
    by (simp add: x)
  from star_Some [OF this] obtain r where "k (r, cap) = Some res" by blast
  then show ?case by (rule exI)
next
  case (Plus a)
  obtain rest cap where x: "x = (rest, cap)" by (cases x)
  from Plus.prems obtain cs where "star (atom_matches ic a) cs (\<lambda>r. k (r, cap)) = Some res"
    by (auto simp: x split: list.splits if_splits)
  from star_Some [OF this] obtain r where "k (r, cap) = Some res" by blast
  then show ?case by (rule exI)
next
  case (Rep a n)
  obtain rest cap where x: "x = (rest, cap)" by (cases x)
  from Rep.prems have "rep (atom_matches ic a) n rest (\<lambda>r. k (r, cap)) = Some res"
    by (simp add: x)
  from rep_Some [OF this] obtain r where "k (r, cap) = Some res" by blast
  then show ?case by (rule exI)
next
  case (Group r)
  obtain rest cap where x: "x = (rest, cap)" by (cases x)
  from Group.prems have "matcher ic s r (rest, cap)
      (\<lambda>y. k (fst y, Some (take (length rest - length (fst y)) rest))) = Some res"
    by (simp add: x)
  from Group.IH [OF this] show ?case by blast
next
  case Bol
  obtain rest cap where x: "x = (rest, cap)" by (cases x)
  from Bol.prems have "k x = Some res" by (simp add: x split: if_splits)
  then show ?case by (rule exI)
next
  case Eol
  obtain rest cap where x: "x = (rest, cap)" by (cases x)
  from Eol.prems have "k x = Some res" by (simp add: x split: if_splits)
  then show ?case by (rule exI)
qed

lemma group_rep_Some:
  assumes "matcher ic s (Group (Rep a n)) (rest, cap) k = Some res"
  shows "\<exists>xs ys. rest = xs @ ys \<and> length xs = n \<and> list_all (atom_matches ic a) xs
           \<and> k (ys, Some xs) = Some res"
proof -
  from assms have "rep (atom_matches ic a) n rest
      (\<lambda>r. k (r, Some (take (length rest - length r) rest))) = Some res" by simp
  from rep_Some [OF this] obtain xs ys where *: "rest = xs @ ys" "length xs = n"
    "list_all (atom_matches ic a) xs"
    "k (ys, Some (take (length rest - length ys) rest)) = Some res" by blast
  then have "take (length rest - length ys) rest = xs" by simp
  with * show ?thesis by metis
qed

lemma exec_from_Some:
  "exec_from ic r s rest = Some cap \<Longrightarrow>
     \<exists>x y. matcher ic s r (x, None) Some = Some y \<and> cap = snd y"
proof (induction rest)
  case Nil
  then obtain y where "matcher ic s r ([], None) Some = Some y" "cap = snd y"
    by (auto split: option.splits)
  then show ?case by blast
next
  case (Cons c cs)
  show ?case
  proof (cases "matcher ic s r (c # cs, None) Some")
    case None
    with Cons show ?thesis by simp
  next
    case (Some y)
    with Cons.prems have "cap = snd y" by simp
    with Some show ?thesis by blast
  qed
qed

lemma try_patterns_Some:
  "try_patterns ps url = Some g \<Longrightarrow> \<exists>p \<in> set ps. js_match url p = Some (Some g)"
  by (induction ps) (auto split: option.splits if_splits)

subsection \<open>What the capture groups accept\<close>

lemma id_atom_no_delimiter: "atom_matches True id_atom c \<Longrightarrow> \<not> url_delimiter c"
  by (auto simp: id_atom_def url_delimiter_def canonicalize_def isSpace_def isWhiteSpace_def
      isLineTerminator_def split: if_splits)

lemma idchar_no_delimiter: "idchar c \<Longrightarrow> \<not> url_delimiter c"
  by (auto simp: idchar_def url_delimiter_def isSpace_def isWhiteSpace_def isLineTerminator_def)

lemma url_capture:
  assumes "matcher True s (Seq r id_group) x Some = Some y"
  shows "\<exists>g. snd y = Some g \<and> length g = 11 \<and> list_all (\<lambda>c. \<not> url_delimiter c) g"
proof -
  from assms have "matcher True s r x (\<lambda>z. matcher True s id_group z Some) = Some y" by simp
  from matcher_Some [OF this] obtain z where "matcher True s id_group z Some = Some y" by blast
  then have "matcher True s (Group (Rep id_atom 11)) (fst z, snd z) Some = Some y"
    by (simp add: id_group_def)
  from group_rep_Some [OF this] obtain xs ys where "length xs = 11"
    "list_all (atom_matches True id_atom) xs" "Some (ys, Some xs) = Some y" by blast
  then show ?thesis using id_atom_no_delimiter by (auto simp: list_all_iff)
qed

lemma bare_capture:
  assumes "matcher False s (snd pattern6) x Some = Some y"
  shows "\<exists>g. snd y = Some g \<and> is_video_identifier g \<and> (fst x = s \<longrightarrow> g = s)"
proof -
  obtain rest cap where x: "x = (rest, cap)" by (cases x)
  from assms have "(if length rest = length s
      then matcher False s (Group (Rep bare_atom 11)) (rest, cap)
             (\<lambda>z. matcher False s Eol z Some)
      else None) = Some y"
    unfolding pattern6_def x by (simp only: snd_conv matcher.simps(3,10))
  then have len: "length rest = length s"
    and G: "matcher False s (Group (Rep bare_atom 11)) (rest, cap)
       (\<lambda>z. matcher False s Eol z Some) = Some y"
    by (cases "length rest = length s"; simp only: if_True if_False option.distinct)+
  from group_rep_Some [OF G] obtain xs ys where *: "rest = xs @ ys" "length xs = 11"
    "list_all (atom_matches False bare_atom) xs"
    "matcher False s Eol (ys, Some xs) Some = Some y" by blast
  from *(4) have "ys = []" and "y = ([], Some xs)" by (auto split: if_splits)
  with * show ?thesis by (auto simp: x is_video_identifier_def bare_atom_iff list_all_iff)
qed

lemma pattern_forms:
  "p \<in> set patterns \<Longrightarrow> (\<exists>r. p = (True, Seq r id_group)) \<or> p = pattern6"
  by (auto simp: patterns_def pattern1_def pattern2_def pattern3_def pattern4_def pattern5_def)

lemma js_match_capture:
  assumes "p \<in> set patterns" and "js_match url p = Some (Some g)"
  shows "length g = 11 \<and> list_all (\<lambda>c. \<not> url_delimiter c) g"
proof -
  from assms(2) obtain x y where m: "matcher (fst p) url (snd p) (x, None) Some = Some y"
    and g: "Some g = snd y"
    unfolding js_match_def by (blast dest: exec_from_Some)
  from pattern_forms [OF assms(1)] show ?thesis
  proof
    assume "\<exists>r. p = (True, Seq r id_group)"
    then obtain r where "p = (True, Seq r id_group)" by blast
    with m have "matcher True url (Seq r id_group) (x, None) Some = Some y"
      by (simp only: fst_conv snd_conv)
    from url_capture [OF this] g show ?thesis by auto
  next
    assume 6: "p = pattern6"
    then have "fst p = False" by (simp add: pattern6_def)
    with m 6 have "matcher False url (snd pattern6) (x, None) Some = Some y" by simp
    from bare_capture [OF this] g show ?thesis
      using idchar_no_delimiter by (auto simp: is_video_identifier_def list_all_iff)
  qed
qed

lemma lit_needs_slash:
  "CHR ''/'' \<in> set w \<Longrightarrow> 0x2F \<notin> set rest \<Longrightarrow> matcher ic s (lit w) (rest, cap) k = None"
proof (induction w arbitrary: rest)
  case Nil
  then show ?case by simp
next
  case (Cons a w)
  show ?case
  proof (cases rest)
    case Nil
    then show ?thesis by simp
  next
    case (Cons x xs)
    with Cons.prems have x: "x \<noteq> 0x2F" and xs: "0x2F \<notin> set xs" by auto
    show ?thesis
    proof (cases "a = CHR ''/''")
      case True
      with x show ?thesis by (auto simp: Cons canonicalize_def)
    next
      case False
      with Cons.prems have "CHR ''/'' \<in> set w" by auto
      from Cons.IH [OF this xs] show ?thesis by (simp add: Cons)
    qed
  qed
qed

lemma url_patterns_need_slash:
  assumes "list_all (\<lambda>c. c \<noteq> 0x2F) rest"
  shows "matcher True s (snd pattern1) (rest, None) Some = None"
    and "matcher True s (snd pattern2) (rest, None) Some = None"
    and "matcher True s (snd pattern3) (rest, None) Some = None"
    and "matcher True s (snd pattern4) (rest, None) Some = None"
    and "matcher True s (snd pattern5) (rest, None) Some = None"
proof -
  from assms have "0x2F \<notin> set rest" by (auto simp: list_all_iff)
  then show "matcher True s (snd pattern1) (rest, None) Some = None"
    and "matcher True s (snd pattern2) (rest, None) Some = None"
    and "matcher True s (snd pattern3) (rest, None) Some = None"
    and "matcher True s (snd pattern4) (rest, None) Some = None"
    and "matcher True s (snd pattern5) (rest, None) Some = None"
    unfolding pattern1_def pattern2_def pattern3_def pattern4_def pattern5_def
    by (simp_all add: lit_needs_slash del: lit.simps)
qed

lemma js_match_no_slash:
  assumes "p \<in> {pattern1, pattern2, pattern3, pattern4, pattern5}" and "0x2F \<notin> set url"
  shows "js_match url p = None"
proof -
  from assms(1) have ic: "fst p = True"
    by (auto simp: pattern1_def pattern2_def pattern3_def pattern4_def pattern5_def)
  have nd: "\<And>rest. list_all (\<lambda>c. c \<noteq> 0x2F) rest
      \<Longrightarrow> matcher True url (snd p) (rest, None) Some = None"
    using assms(1) url_patterns_need_slash by auto
  from assms(2) have "list_all (\<lambda>c. c \<noteq> 0x2F) url" by (auto simp: list_all_iff)
  with nd show ?thesis unfolding js_match_def ic by (rule exec_from_fail)
qed

lemma extract_no_slash:
  assumes "extractVideoId url = Some g" and "0x2F \<notin> set url"
  shows "is_video_identifier g"
proof -
  have u: "js_match url pattern1 = None" "js_match url pattern2 = None"
    "js_match url pattern3 = None" "js_match url pattern4 = None" "js_match url pattern5 = None"
    using js_match_no_slash [OF _ assms(2)] by simp_all
  from assms(1) have "js_match url pattern6 = Some (Some g)"
    by (simp add: extractVideoId_def patterns_def u split: option.splits if_splits)
  then obtain x y where "matcher (fst pattern6) url (snd pattern6) (x, None) Some = Some y"
    and g: "Some g = snd y"
    unfolding js_match_def by (blast dest: exec_from_Some)
  moreover have "fst pattern6 = False" by (simp add: pattern6_def)
  ultimately have "matcher False url (snd pattern6) (x, None) Some = Some y" by simp
  from bare_capture [OF this] g show ?thesis by auto
qed

text \<open>
  C2, as stated, fails: on the short link \<open>https://youtu.be/dQw4w9Wg.XcQ\<close> the result is
  \<open>dQw4w9Wg.Xc\<close>, which has a full stop and is no well-formed identifier.
\<close>

theorem extractVideoId_malformed_counterexample:
  "extractVideoId (str ''https://youtu.be/dQw4w9Wg.XcQ'') = Some (str ''dQw4w9Wg.Xc'')
   \<and> \<not> is_video_identifier (str ''dQw4w9Wg.Xc'')"
  by (simp add: extractVideoId_def patterns_def pattern1_def js_match_def eval_defs id_atom_def
      is_video_identifier_def idchar_def)

text \<open>
  C2, amended. Every result of \<open>extractVideoId\<close> that is not null has exactly 11 code
  units, none of which is \<open>"\<close>, \<open>&\<close>, \<open>?\<close>, \<open>/\<close> or white space; and when the input has no
  \<open>/\<close> (it is not a URL), the result is 11 characters of \<open>[A-Za-z0-9_-]\<close>.
\<close>

theorem extractVideoId_result_shape:
  assumes "extractVideoId url = Some g"
  shows "length g = 11 \<and> list_all (\<lambda>c. \<not> url_delimiter c) g
         \<and> (0x2F \<notin> set url \<longrightarrow> is_video_identifier g)"
proof -
  from assms obtain p where "p \<in> set patterns" "js_match url p = Some (Some g)"
    unfolding extractVideoId_def by (blast dest: try_patterns_Some)
  from js_match_capture [OF this] extract_no_slash [OF assms] show ?thesis by blast
qed

theorem extractVideoId_result_shape_witness:
  "extractVideoId (str ''dQw4w9WgXcQ'') = Some (str ''dQw4w9WgXcQ'')
   \<and> 0x2F \<notin> set (str ''dQw4w9WgXcQ'')
   \<and> length (str ''dQw4w9WgXcQ'') = 11
   \<and> list_all (\<lambda>c. \<not> url_delimiter c) (str ''dQw4w9WgXcQ'')
   \<and> is_video_identifier (str ''dQw4w9WgXcQ'')"
proof -
  have h: "extractVideoId (str ''dQw4w9WgXcQ'') = Some (str ''dQw4w9WgXcQ'')"
    by (simp add: extractVideoId_def patterns_def pattern1_def pattern2_def pattern3_def
        pattern4_def pattern5_def pattern6_def bare_atom_def id_atom_def js_match_def eval_defs)
  have n: "0x2F \<notin> set (str ''dQw4w9WgXcQ'')" by (simp add: str_def)
  from extractVideoId_result_shape [OF h] h n show ?thesis by simp
qed

lemma try_patterns_nonempty: "try_patterns ps url = Some g \<Longrightarrow> g \<noteq> []"
  by (induction ps) (auto split: option.splits if_splits)

section \<open>The two copies of \<open>extractVideoId\<close>\<close>

lemma download_patterns_eq: "download_patterns = patterns"
  by (simp add: download_patterns_def patterns_def pattern1_def pattern2_def pattern3_def
      pattern4_def pattern5_def pattern6_def id_group_def id_atom_def bare_atom_def)

lemma extractVideoId_download_eq_patterns:
  "extractVideoId_download url = try_patterns patterns url"
  by (simp add: extractVideoId_download_def download_patterns_eq)

text \<open>
  C10. The function \<open>extractVideoId\<close> of the \<open>/info\<close> route and the one of the \<open>/download\<close>
  route return the same result on every input.
\<close>

theorem extractVideoId_download_eq: "extractVideoId_download url = extractVideoId url"
  by (simp add: extractVideoId_download_def extractVideoId_def download_patterns_eq)

section \<open>Claims about the \<open>/info\<close> handler\<close>

lemma extract_examples:
  "extractVideoId (str ''not a url'') = None"
  "extractVideoId (str ''http://example.com'') = None"
  by (simp_all add: extractVideoId_def patterns_def pattern1_def pattern2_def pattern3_def
      pattern4_def pattern5_def pattern6_def bare_atom_def id_atom_def js_match_def eval_defs)

lemma extract_empty: "extractVideoId [] = None"
  by (simp add: extractVideoId_def patterns_def pattern1_def pattern2_def pattern3_def
      pattern4_def pattern5_def pattern6_def bare_atom_def id_atom_def js_match_def eval_defs)

text \<open>
  C3. The \<open>/info\<close> handler answers 400 if and only if the \<open>url\<close> parameter is missing or
  empty or \<open>extractVideoId\<close> returns null on it, as it does on \<open>not a url\<close> and on
  \<open>http://example.com\<close>; a 400 answer carries an error message, and no outbound call, to
  the primary or to the fallback provider, is made for it.
\<close>

theorem info_GET_bad_request:
  "(status (fst (info_GET fetchRapidApiInfo fetchOEmbedInfo url)) = 400
      \<longleftrightarrow> (case url of None \<Rightarrow> True | Some u \<Rightarrow> u = [] \<or> extractVideoId u = None))
   \<and> (status (fst (info_GET fetchRapidApiInfo fetchOEmbedInfo url)) = 400
      \<longrightarrow> error_message (fst (info_GET fetchRapidApiInfo fetchOEmbedInfo url)) \<noteq> None
          \<and> snd (info_GET fetchRapidApiInfo fetchOEmbedInfo url) = [])
   \<and> extractVideoId (str ''not a url'') = None
   \<and> extractVideoId (str ''http://example.com'') = None"
proof -
  have ne: "\<And>u g. extractVideoId u = Some g \<Longrightarrow> g \<noteq> []"
    unfolding extractVideoId_def by (rule try_patterns_nonempty)
  show ?thesis
    by (auto simp: info_GET_def info_try_def extract_examples
        split: option.splits sum.splits prod.splits dest: ne)
qed

theorem info_GET_bad_request_witness:
  "status (fst (info_GET (\<lambda>v. None) (\<lambda>v. None) (Some (str ''http://example.com'')))) = 400
   \<and> error_message (fst (info_GET (\<lambda>v. None) (\<lambda>v. None) (Some (str ''http://example.com''))))
       = Some (str ''Could not extract video ID from URL'')
   \<and> snd (info_GET (\<lambda>v. None) (\<lambda>v. None) (Some (str ''http://example.com''))) = []"
proof -
  have e: "extractVideoId (str ''http://example.com'') = None" by (rule extract_examples)
  have ne: "str ''http://example.com'' \<noteq> []" by (simp add: str_def)
  from info_GET_bad_request [of "\<lambda>v. None" "\<lambda>v. None" "Some (str ''http://example.com'')"]
  show ?thesis by (simp add: info_GET_def info_try_def e ne)
qed

text \<open>
  C4. When the identifier is extracted and the call to the primary provider fails, the
  outbound calls are one call to the primary provider and then exactly one call to the
  fallback provider; when that call succeeds, the answer is 200 with exactly two formats, a
  combined 360p MP4 video format and an audio format of 128 kbps, with \<open>lengthSeconds\<close>
  \<open>"0"\<close>, \<open>viewCount\<close> \<open>"0"\<close> and \<open>contentLength\<close> \<open>"0"\<close> in both formats.
\<close>

theorem info_GET_fallback:
  assumes "extractVideoId u = Some vid" and "fetchRapidApiInfo vid = None"
  shows "snd (info_GET fetchRapidApiInfo fetchOEmbedInfo (Some u)) = [RapidApi vid, OEmbed vid]
    \<and> (fetchOEmbedInfo vid = Some oembedData \<longrightarrow>
         (\<exists>r. fst (info_GET fetchRapidApiInfo fetchOEmbedInfo (Some u)) = Json 200 (InfoBody r)
            \<and> length (formats r) = 2
            \<and> map hasVideo (formats r) = [True, False]
            \<and> map hasAudio (formats r) = [True, True]
            \<and> map qualityLabel (formats r) = [Some (str ''360p''), Some (str ''Audio Only'')]
            \<and> map mimeType (formats r) = [Some (str ''video/mp4''), Some (str ''audio/mp4'')]
            \<and> map bitrate (formats r) = [0, 128000]
            \<and> map contentLength (formats r) = [Some (str ''0''), Some (str ''0'')]
            \<and> lengthSeconds r = str ''0''
            \<and> viewCount r = str ''0''))"
proof -
  from assms(1) have ne: "vid \<noteq> []" "u \<noteq> []"
    using extract_empty by (auto simp: extractVideoId_def dest: try_patterns_nonempty)
  show ?thesis using assms ne
    by (auto simp: info_GET_def info_try_def fallback_response_def fallback_formats_def
        split: option.splits)
qed


lemma extract_example_short_link:
  "extractVideoId (str ''https://youtu.be/dQw4w9WgXcQ'') = Some (str ''dQw4w9WgXcQ'')"
  by (simp add: extractVideoId_def patterns_def pattern1_def id_atom_def js_match_def eval_defs)

theorem info_GET_fallback_witness:
  "extractVideoId (str ''https://youtu.be/dQw4w9WgXcQ'') = Some (str ''dQw4w9WgXcQ'')
   \<and> snd (info_GET (\<lambda>v. None)
         (\<lambda>v. Some \<lparr> oembed_title = Some (str ''Title''), oembed_author_name = None,
                      oembed_thumbnail_url = None \<rparr>)
         (Some (str ''https://youtu.be/dQw4w9WgXcQ'')))
       = [RapidApi (str ''dQw4w9WgXcQ''), OEmbed (str ''dQw4w9WgXcQ'')]
   \<and> status (fst (info_GET (\<lambda>v. None)
         (\<lambda>v. Some \<lparr> oembed_title = Some (str ''Title''), oembed_author_name = None,
                      oembed_thumbnail_url = None \<rparr>)
         (Some (str ''https://youtu.be/dQw4w9WgXcQ'')))) = 200
   \<and> map_option (\<lambda>r. length (formats r)) (info_of (fst (info_GET (\<lambda>v. None)
         (\<lambda>v. Some \<lparr> oembed_title = Some (str ''Title''), oembed_author_name = None,
                      oembed_thumbnail_url = None \<rparr>)
         (Some (str ''https://youtu.be/dQw4w9WgXcQ''))))) = Some 2"
proof -
  note h = extract_example_short_link
  from info_GET_fallback [OF h, of "\<lambda>v. None"
      "\<lambda>v. Some \<lparr> oembed_title = Some (str ''Title''), oembed_author_name = None,
                   oembed_thumbnail_url = None \<rparr>"
      "\<lparr> oembed_title = Some (str ''Title''), oembed_author_name = None,
         oembed_thumbnail_url = None \<rparr>"]
  show ?thesis using h by auto
qed

text \<open>
  C5. When the identifier is extracted and both the call to the primary provider and the
  call to the fallback provider fail, the handler answers 500 with the error message
  \<open>All methods failed to fetch video information\<close>, which contains \<open>failed\<close>.
\<close>

theorem info_GET_all_failed:
  assumes "extractVideoId u = Some vid" and "fetchRapidApiInfo vid = None"
    and "fetchOEmbedInfo vid = None"
  shows "status (fst (info_GET fetchRapidApiInfo fetchOEmbedInfo (Some u))) = 500
    \<and> error_message (fst (info_GET fetchRapidApiInfo fetchOEmbedInfo (Some u)))
        = Some (str ''All methods failed to fetch video information'')
    \<and> contains (str ''failed'') (str ''All methods failed to fetch video information'')"
proof -
  from assms(1) have ne: "vid \<noteq> []" "u \<noteq> []"
    using extract_empty by (auto simp: extractVideoId_def dest: try_patterns_nonempty)
  have c: "contains (str ''failed'') (str ''All methods failed to fetch video information'')"
    by (simp add: str_def)
  show ?thesis using assms ne c by (simp add: info_GET_def info_try_def)
qed

theorem info_GET_all_failed_witness:
  "extractVideoId (str ''https://youtu.be/dQw4w9WgXcQ'') = Some (str ''dQw4w9WgXcQ'')
   \<and> status (fst (info_GET (\<lambda>v. None) (\<lambda>v. None) (Some (str ''https://youtu.be/dQw4w9WgXcQ''))))
       = 500
   \<and> error_message
        (fst (info_GET (\<lambda>v. None) (\<lambda>v. None) (Some (str ''https://youtu.be/dQw4w9WgXcQ''))))
       = Some (str ''All methods failed to fetch video information'')"
  using info_GET_all_failed [OF extract_example_short_link, of "\<lambda>v. None" "\<lambda>v. None"]
    extract_example_short_link
  by simp

subsection \<open>The sort keeps the formats\<close>

lemma set_insert_sorted: "set (insert_sorted comparefn x ys) = insert x (set ys)"
  by (induction ys) auto

lemma set_array_sort: "set (array_sort comparefn xs) = set xs"
  unfolding array_sort_def by (induction xs) (simp_all add: set_insert_sorted)

text \<open>
  C9. In every 200 answer of the \<open>/info\<close> handler, from the primary path or from the
  fallback path, every format of the list has \<open>hasVideo\<close> or \<open>hasAudio\<close> true.
\<close>

theorem info_GET_formats_playable:
  assumes "fst (info_GET fetchRapidApiInfo fetchOEmbedInfo url) = Json 200 (InfoBody r)"
  shows "list_all (\<lambda>f. hasVideo f \<or> hasAudio f) (formats r)"
proof -
  have p: "list_all (\<lambda>f. hasVideo f \<or> hasAudio f) (normalize_formats videos audios)"
    for videos audios
    by (auto simp: normalize_formats_def set_array_sort list_all_iff video_format_def
        audio_format_def)
  have f: "list_all (\<lambda>f. hasVideo f \<or> hasAudio f) fallback_formats"
    by (simp add: fallback_formats_def)
  from assms consider (primary) d vid where "r = primary_response vid d"
    | (fallback) e vid where "r = fallback_response vid e"
    by (auto simp: info_GET_def info_try_def split: option.splits if_splits)
  then show ?thesis
  proof cases
    case primary
    then show ?thesis using p by (simp add: primary_response_def)
  next
    case fallback
    then show ?thesis using f by (simp add: fallback_response_def)
  qed
qed

theorem info_GET_formats_playable_witness:
  "fst (info_GET (\<lambda>v. Some example_payload) (\<lambda>v. None)
          (Some (str ''https://youtu.be/dQw4w9WgXcQ'')))
     = Json 200 (InfoBody (primary_response (str ''dQw4w9WgXcQ'') example_payload))
   \<and> length (formats (primary_response (str ''dQw4w9WgXcQ'') example_payload)) = 3
   \<and> list_all (\<lambda>f. hasVideo f \<or> hasAudio f)
        (formats (primary_response (str ''dQw4w9WgXcQ'') example_payload))"
proof -
  have ne: "str ''https://youtu.be/dQw4w9WgXcQ'' \<noteq> []" "str ''dQw4w9WgXcQ'' \<noteq> []"
    by (simp_all add: str_def)
  have h: "fst (info_GET (\<lambda>v. Some example_payload) (\<lambda>v. None)
          (Some (str ''https://youtu.be/dQw4w9WgXcQ'')))
     = Json 200 (InfoBody (primary_response (str ''dQw4w9WgXcQ'') example_payload))"
    by (simp add: info_GET_def info_try_def extract_example_short_link ne)
  have l: "length (array_sort c xs) = length xs" for c :: "VideoFormat \<Rightarrow> VideoFormat \<Rightarrow> int option"
    and xs
  proof -
    have "length (insert_sorted c x ys) = Suc (length ys)" for x ys
      by (induction ys) simp_all
    then show ?thesis unfolding array_sort_def by (induction xs) simp_all
  qed
  have n: "length (formats (primary_response (str ''dQw4w9WgXcQ'') example_payload)) = 3"
    by (simp add: primary_response_def normalize_formats_def l example_payload_def items_of_def)
  from info_GET_formats_playable [OF h] h n show ?thesis by simp
qed

section \<open>Claims about the \<open>/download\<close> handler\<close>

text \<open>
  C8. The \<open>/download\<close> handler answers 400 exactly when neither \<open>url\<close> nor \<open>videoId\<close> is
  supplied, or \<open>videoId\<close> is not supplied and the \<open>url\<close> does not parse into an identifier;
  a supplied \<open>videoId\<close> takes precedence over the \<open>url\<close>, which is then not looked at.
  Otherwise the handler redirects: for the format \<open>mp3\<close> to the path \<open>/youtube-mp3/\<close> of the
  mirror followed by the identifier; for any other format to the path \<open>/youtube/\<close> of the
  mirror followed by the identifier, then by \<open>/mp4/\<close> and the \<open>itag\<close> when an \<open>itag\<close> is
  supplied, and by nothing (the default of the mirror) when it is not.
\<close>

theorem download_GET_redirects:
  "(status (download_GET url itg fmt vId) = 400 \<longleftrightarrow> requested_id url vId = None)
   \<and> (truthy vId \<longrightarrow> download_GET url itg fmt vId = download_GET None itg fmt vId)
   \<and> (requested_id url vId = Some finalVideoId \<longrightarrow>
        (fmt = Some (str ''mp3'') \<longrightarrow>
           download_GET url itg fmt vId
             = Redirect (str ''https://www.y2mate.com/youtube-mp3/'' @ finalVideoId))
      \<and> (fmt \<noteq> Some (str ''mp3'') \<longrightarrow> itg = Some t \<longrightarrow> t \<noteq> [] \<longrightarrow>
           download_GET url itg fmt vId
             = Redirect (str ''https://www.y2mate.com/youtube/'' @ finalVideoId @ str ''/mp4/'' @ t))
      \<and> (fmt \<noteq> Some (str ''mp3'') \<longrightarrow> \<not> truthy itg \<longrightarrow>
           download_GET url itg fmt vId
             = Redirect (str ''https://www.y2mate.com/youtube/'' @ finalVideoId)))"
proof -
  have ne: "\<And>u g. extractVideoId_download u = Some g \<Longrightarrow> g \<noteq> []"
    unfolding extractVideoId_download_def by (rule try_patterns_nonempty)
  show ?thesis
    by (auto simp: download_GET_def final_video_id_def download_url_def requested_id_def
        truthy_def or_default_def split: option.splits if_splits dest: ne)
qed

theorem download_GET_redirects_witness:
  "download_GET (Some (str ''no video here'')) (Some (str ''22'')) (Some (str ''mp4''))
       (Some (str ''dQw4w9WgXcQ''))
     = Redirect (str ''https://www.y2mate.com/youtube/dQw4w9WgXcQ/mp4/22'')
   \<and> download_GET (Some (str ''https://youtu.be/dQw4w9WgXcQ'')) None (Some (str ''mp3'')) None
     = Redirect (str ''https://www.y2mate.com/youtube-mp3/dQw4w9WgXcQ'')
   \<and> download_GET (Some (str ''https://youtu.be/dQw4w9WgXcQ'')) None None None
     = Redirect (str ''https://www.y2mate.com/youtube/dQw4w9WgXcQ'')
   \<and> status (download_GET (Some (str ''http://example.com'')) (Some (str ''22'')) None None) = 400"
proof -
  have x: "extractVideoId_download (str ''https://youtu.be/dQw4w9WgXcQ'') = Some (str ''dQw4w9WgXcQ'')"
    "extractVideoId_download (str ''http://example.com'') = None"
    using extract_example_short_link extract_examples
    by (simp_all add: extractVideoId_download_eq_patterns extractVideoId_def)
  have ne: "str ''https://youtu.be/dQw4w9WgXcQ'' \<noteq> []" "str ''dQw4w9WgXcQ'' \<noteq> []"
    "str ''http://example.com'' \<noteq> []" "str ''22'' \<noteq> []" "str ''mp4'' \<noteq> str ''mp3''"
    by (simp_all add: str_def)
  have r1: "requested_id (Some (str ''no video here'')) (Some (str ''dQw4w9WgXcQ''))
      = Some (str ''dQw4w9WgXcQ'')"
    and r2: "requested_id (Some (str ''https://youtu.be/dQw4w9WgXcQ'')) None
      = Some (str ''dQw4w9WgXcQ'')"
    and r3: "requested_id (Some (str ''http://example.com'')) None = None"
    by (simp_all add: requested_id_def truthy_def x ne)
  have a: "str ''https://www.y2mate.com/youtube/'' @ str ''dQw4w9WgXcQ'' @ str ''/mp4/'' @ str ''22''
      = str ''https://www.y2mate.com/youtube/dQw4w9WgXcQ/mp4/22''"
    and b: "str ''https://www.y2mate.com/youtube-mp3/'' @ str ''dQw4w9WgXcQ''
      = str ''https://www.y2mate.com/youtube-mp3/dQw4w9WgXcQ''"
    and c: "str ''https://www.y2mate.com/youtube/'' @ str ''dQw4w9WgXcQ''
      = str ''https://www.y2mate.com/youtube/dQw4w9WgXcQ''"
    by (simp_all add: str_def)
  from download_GET_redirects [of "Some (str ''no video here'')" "Some (str ''22'')"
      "Some (str ''mp4'')" "Some (str ''dQw4w9WgXcQ'')" "str ''dQw4w9WgXcQ''" "str ''22''"]
  have 1: "download_GET (Some (str ''no video here'')) (Some (str ''22'')) (Some (str ''mp4''))
       (Some (str ''dQw4w9WgXcQ''))
     = Redirect (str ''https://www.y2mate.com/youtube/dQw4w9WgXcQ/mp4/22'')"
    by (simp add: r1 ne a)
  from download_GET_redirects [of "Some (str ''https://youtu.be/dQw4w9WgXcQ'')" None
      "Some (str ''mp3'')" None "str ''dQw4w9WgXcQ''"]
  have 2: "download_GET (Some (str ''https://youtu.be/dQw4w9WgXcQ'')) None (Some (str ''mp3'')) None
     = Redirect (str ''https://www.y2mate.com/youtube-mp3/dQw4w9WgXcQ'')"
    by (simp add: r2 b)
  from download_GET_redirects [of "Some (str ''https://youtu.be/dQw4w9WgXcQ'')" None None None
      "str ''dQw4w9WgXcQ''"]
  have 3: "download_GET (Some (str ''https://youtu.be/dQw4w9WgXcQ'')) None None None
     = Redirect (str ''https://www.y2mate.com/youtube/dQw4w9WgXcQ'')"
    by (simp add: r2 c truthy_def)
  from download_GET_redirects [of "Some (str ''http://example.com'')" "Some (str ''22'')" None None]
  have 4: "status (download_GET (Some (str ''http://example.com'')) (Some (str ''22'')) None None)
     = 400"
    by (simp add: r3)
  from 1 2 3 4 show ?thesis by simp
qed

section \<open>Claims about the format list\<close>

lemma mset_insert_sorted: "mset (insert_sorted comparefn x ys) = add_mset x (mset ys)"
  by (induction ys) simp_all

lemma mset_array_sort: "mset (array_sort comparefn xs) = mset xs"
  unfolding array_sort_def by (induction xs) (simp_all add: mset_insert_sorted)

text \<open>
  C7, as stated, fails: for an audio item with the MIME type \<open>audio/mp4\<close> and the container
  \<open>m4a\<close> the format has the MIME type \<open>audio/m4a\<close>; the MIME type of the provider is not
  kept.
\<close>

theorem audio_mimeType_counterexample:
  "item_mimeType (example_item 140 (Some (str ''audio/mp4'')) None 128000 None (Some (str ''m4a'')))
     = Some (str ''audio/mp4'')
   \<and> map mimeType
        (normalize_formats None
           (Some [example_item 140 (Some (str ''audio/mp4'')) None 128000 None (Some (str ''m4a''))]))
     = [Some (str ''audio/m4a'')]
   \<and> str ''audio/m4a'' \<noteq> str ''audio/mp4''"
  by (simp add: normalize_formats_def array_sort_def items_of_def audio_format_def
      example_item_def or_default_def str_def)

text \<open>
  C7, amended. The formats of the normalized list are, up to their order, the formats of
  the video items and of the audio items. The format of a video item has \<open>hasVideo\<close> true,
  and \<open>hasAudio\<close> true exactly when the item has the field \<open>audioQuality\<close>. The format of an
  audio item has \<open>hasVideo\<close> false, \<open>hasAudio\<close> true, the quality label \<open>Audio Only\<close>, and
  always the MIME type \<open>audio/\<close> followed by the container of the item, or by \<open>mp3\<close> when
  the container is missing or empty; a MIME type of the provider is not looked at.
\<close>

theorem normalize_formats_items:
  "mset (normalize_formats videos audios)
     = mset (map video_format (items_of videos)) + mset (map audio_format (items_of audios))
   \<and> hasVideo (video_format item)
   \<and> (hasAudio (video_format item) \<longleftrightarrow> item_audioQuality item \<noteq> None)
   \<and> \<not> hasVideo (audio_format item)
   \<and> hasAudio (audio_format item)
   \<and> qualityLabel (audio_format item) = Some (str ''Audio Only'')
   \<and> mimeType (audio_format item)
       = Some (str ''audio/'' @ (case item_container item of
                                   None \<Rightarrow> str ''mp3''
                                 | Some c \<Rightarrow> if c = [] then str ''mp3'' else c))
   \<and> mimeType (audio_format (item\<lparr>item_mimeType := m\<rparr>)) = mimeType (audio_format item)"
  by (simp add: normalize_formats_def mset_array_sort video_format_def audio_format_def
      or_default_def split: option.splits)

subsection \<open>The sort and the order of the specification\<close>

lemma insert_sorted_rank:
  assumes "hasVideo x \<longrightarrow> resolution x \<noteq> None"
    and "list_all (\<lambda>f. hasVideo f \<longrightarrow> resolution f \<noteq> None) ys"
  shows "insert_sorted compareFormats x ys = insort_key format_rank x ys"
  using assms
  by (induction ys)
    (auto simp: sortCompare_def compareFormats_def format_rank_def split: option.splits)

lemma insort_key_parse:
  "list_all P ys \<Longrightarrow> P x \<Longrightarrow> list_all P (insort_key k x ys)"
  by (induction ys) auto

lemma array_sort_rank:
  assumes "list_all (\<lambda>f. hasVideo f \<longrightarrow> resolution f \<noteq> None) xs"
  shows "array_sort compareFormats xs = sort_key format_rank xs"
proof -
  have "foldr (insert_sorted compareFormats) xs [] = foldr (insort_key format_rank) xs []
      \<and> list_all (\<lambda>f. hasVideo f \<longrightarrow> resolution f \<noteq> None) (foldr (insort_key format_rank) xs [])"
    using assms
  proof (induction xs)
    case Nil
    then show ?case by simp
  next
    case (Cons x xs)
    then show ?case by (simp add: insert_sorted_rank insort_key_parse)
  qed
  then show ?thesis by (simp add: array_sort_def sort_key_def)
qed

text \<open>
  When the label of every video item parses, the normalized list is the stable sort of the
  formats by the order of the specification.
\<close>

lemma normalize_formats_sorted:
  assumes "list_all (\<lambda>item. resolution (video_format item) \<noteq> None) (items_of videos)"
  shows "normalize_formats videos audios
           = sort_key format_rank
               (map video_format (items_of videos) @ map audio_format (items_of audios))"
    and "sorted (map format_rank (normalize_formats videos audios))"
    and "filter (\<lambda>f. format_rank f = k) (normalize_formats videos audios)
           = filter (\<lambda>f. format_rank f = k)
               (map video_format (items_of videos) @ map audio_format (items_of audios))"
proof -
  have "list_all (\<lambda>f. hasVideo f \<longrightarrow> resolution f \<noteq> None)
      (map video_format (items_of videos) @ map audio_format (items_of audios))"
    using assms by (auto simp: list_all_iff audio_format_def)
  from array_sort_rank [OF this]
  show 1: "normalize_formats videos audios
           = sort_key format_rank
               (map video_format (items_of videos) @ map audio_format (items_of audios))"
    by (simp add: normalize_formats_def)
  show "sorted (map format_rank (normalize_formats videos audios))"
    unfolding 1 by (rule sorted_sort_key)
  show "filter (\<lambda>f. format_rank f = k) (normalize_formats videos audios)
           = filter (\<lambda>f. format_rank f = k)
               (map video_format (items_of videos) @ map audio_format (items_of audios))"
    unfolding 1 by (rule sort_key_stable)
qed

lemmas number_defs = resolution_def parseInt_def strip_sign_def strip_prefix_def is_digit_def
  digit_value_def digits_value_def or_default_def isSpace_def isWhiteSpace_def
  isLineTerminator_def

text \<open>The example of the specification: 480p and 720p video, 128 and 256 kbps audio.\<close>

lemma normalize_formats_example:
  "map (\<lambda>f. (qualityLabel f, bitrate f))
     (normalize_formats
        (Some [example_item 135 None (Some (str ''480p'')) 1000000 None None,
               example_item 136 None (Some (str ''720p'')) 2000000 None None])
        (Some [example_item 140 None None 128000 None None,
               example_item 141 None None 256000 None None]))
   = [(Some (str ''720p''), 2000000), (Some (str ''480p''), 1000000),
      (Some (str ''Audio Only''), 256000), (Some (str ''Audio Only''), 128000)]"
  by (simp add: normalize_formats_def array_sort_def items_of_def video_format_def
      audio_format_def example_item_def sortCompare_def compareFormats_def number_defs str_def)

text \<open>
  C6 on the code: for the video items \<open>HD\<close> and \<open>720p\<close>, in this order, the label \<open>HD\<close>
  parses to \<open>NaN\<close>, not to 0, the comparator returns \<open>NaN\<close> on the pair in both directions,
  and the format of 720p stays behind the format of \<open>HD\<close>: the list is not in the order of
  the specification.
\<close>

theorem normalize_formats_unparseable_label:
  "map qualityLabel
     (normalize_formats
        (Some [example_item 1 None (Some (str ''HD'')) 0 None None,
               example_item 2 None (Some (str ''720p'')) 0 None None])
        None)
     = [Some (str ''HD''), Some (str ''720p'')]
   \<and> map resolution
     (normalize_formats
        (Some [example_item 1 None (Some (str ''HD'')) 0 None None,
               example_item 2 None (Some (str ''720p'')) 0 None None])
        None)
     = [None, Some 720]
   \<and> \<not> sorted (map format_rank
     (normalize_formats
        (Some [example_item 1 None (Some (str ''HD'')) 0 None None,
               example_item 2 None (Some (str ''720p'')) 0 None None])
        None))"
  by (simp add: normalize_formats_def array_sort_def items_of_def video_format_def
      example_item_def sortCompare_def compareFormats_def format_rank_def number_defs str_def)

end
